theory Spec2Isabelle
  imports Main
begin

section \<open>The in-memory rate limiter of api/chat.ts\<close>

text \<open>
  An entry of \<open>rateLimitMap\<close>: \<open>{ count: number; resetTime: number }\<close>. The counter
  only ever holds small whole numbers and the reset time is \<open>Date.now()\<close> plus a whole
  number of milliseconds, so both are modelled as unbounded integers (far below
  \<open>2^53\<close>, where a JavaScript number is still exact).
\<close>

record entry =
  count :: int
  resetTime :: int

type_synonym rateLimitMap = "string \<rightharpoonup> entry"

text \<open>The constant \<open>RATE_LIMIT\<close>.\<close>

definition maxRequests :: int where
  "maxRequests = 100"

definition windowMs :: int where
  "windowMs = 60 * 60 * 1000"

text \<open>The object returned by \<open>checkRateLimit\<close>; its \<open>resetTime\<close> field is
  \<open>resultResetTime\<close> here, since the entry already has a field of that name.\<close>

record rateLimitResult =
  allowed :: bool
  remaining :: int
  resultResetTime :: int

text \<open>
  \<open>checkRateLimit(ip)\<close>. The clock reading \<open>Date.now()\<close> is the argument \<open>now\<close>,
  the module-level map is passed in and returned updated. The entry object fetched from
  the map is private to its key, so the in-place \<open>entry.count++\<close> followed by
  \<open>rateLimitMap.set\<close> is a plain update of that key.
\<close>

definition checkRateLimit :: "int \<Rightarrow> string \<Rightarrow> rateLimitMap \<Rightarrow> rateLimitResult \<times> rateLimitMap" where
  "checkRateLimit now ip m =
     (let key = ip;
          e0 = (case m key of
                  None \<Rightarrow> \<lparr>count = 0, resetTime = now + windowMs\<rparr>
                | Some e \<Rightarrow>
                    if now > resetTime e
                    then \<lparr>count = 0, resetTime = now + windowMs\<rparr>
                    else e)
      in if count e0 \<ge> maxRequests
         then (\<lparr>allowed = False, remaining = 0, resultResetTime = resetTime e0\<rparr>,
               m(key \<mapsto> e0))
         else (let e1 = e0\<lparr>count := count e0 + 1\<rparr>
               in (\<lparr>allowed = True, remaining = maxRequests - count e1,
                    resultResetTime = resetTime e1\<rparr>,
                   m(key \<mapsto> e1))))"

text \<open>A sequence of calls, each with its clock reading and its key, run in order; the
  results are collected and the map is threaded through.\<close>

fun checkRateLimits :: "(int \<times> string) list \<Rightarrow> rateLimitMap \<Rightarrow> rateLimitResult list \<times> rateLimitMap" where
  "checkRateLimits [] m = ([], m)"
| "checkRateLimits ((now, ip) # cs) m =
     (let (r, m') = checkRateLimit now ip m;
          (rs, m'') = checkRateLimits cs m'
      in (r # rs, m''))"

text \<open>Calls for one key at the given clock readings.\<close>

definition sameKey :: "string \<Rightarrow> int list \<Rightarrow> (int \<times> string) list" where
  "sameKey key ts = map (\<lambda>t. (t, key)) ts"

text \<open>In a sequence of calls of any clients: the calls made for one key, and the
  results those calls got (the results are listed in the order of the calls).\<close>

definition callsOf :: "string \<Rightarrow> (int \<times> string) list \<Rightarrow> (int \<times> string) list" where
  "callsOf key cs = filter (\<lambda>c. snd c = key) cs"

definition resultsOf :: "string \<Rightarrow> (int \<times> string) list \<Rightarrow> rateLimitResult list
    \<Rightarrow> rateLimitResult list" where
  "resultsOf key cs rs = map snd (filter (\<lambda>cr. snd (fst cr) = key) (zip cs rs))"

text \<open>What a call answers when it meets an entry with count \<open>c\<close> whose window,
  ending at \<open>r\<close>, is still open: the two \<open>return\<close> statements.\<close>

definition resultAt :: "int \<Rightarrow> int \<Rightarrow> rateLimitResult" where
  "resultAt c r =
     (if c \<ge> maxRequests
      then \<lparr>allowed = False, remaining = 0, resultResetTime = r\<rparr>
      else \<lparr>allowed = True, remaining = maxRequests - (c + 1), resultResetTime = r\<rparr>)"

section \<open>The request handler\<close>

text \<open>
  JavaScript values as far as the handler looks at them: it only tests them for
  truthiness and passes them on. \<open>JNum\<close> stands for whole numbers, \<open>JObj\<close> for any
  object or array (always truthy).
\<close>

datatype js_value = JUndefined | JNull | JBool bool | JNum int | JStr string | JObj

fun truthy :: "js_value \<Rightarrow> bool" where
  "truthy JUndefined = False"
| "truthy JNull = False"
| "truthy (JBool b) = b"
| "truthy (JNum n) = (n \<noteq> 0)"
| "truthy (JStr s) = (s \<noteq> [])"
| "truthy JObj = True"

text \<open>
  \<open>req.body\<close>: \<open>NoBody\<close> is an \<open>undefined\<close> or \<open>null\<close> body, on which the
  destructuring \<open>const { message } = req.body\<close> throws; \<open>Body v\<close> is any other body,
  \<open>v\<close> being the value of its \<open>message\<close> property (\<open>JUndefined\<close> when absent).
\<close>

datatype req_body = NoBody | Body js_value

text \<open>The parts of the request the handler reads. A header that is not sent is
  \<open>None\<close>; \<open>remoteAddress\<close> is \<open>req.connection?.remoteAddress\<close>.\<close>

record request =
  httpMethod :: "string option"
  x_forwarded_for :: "string option"
  x_real_ip :: "string option"
  authorization :: "string option"
  remoteAddress :: "string option"
  body :: req_body

text \<open>\<open>process.env\<close>.\<close>

record env =
  BETA_API_KEY :: "string option"
  OPENAI_API_KEY :: "string option"

text \<open>
  The call to \<open>fetch\<close>. Of the request sent upstream the model keeps the URL, the
  authorization header and the user turn; the model name, the system prompt,
  \<open>max_tokens\<close> and \<open>temperature\<close> are constants of the source and are left out.
\<close>

record fetch_request =
  url :: string
  fetch_authorization :: string
  user_content :: js_value

text \<open>One element of \<open>data.choices\<close>: \<open>null\<close>/\<open>undefined\<close>, an object without
  \<open>message\<close>, or an object whose message has the given \<open>content\<close>
  (\<open>JUndefined\<close> when absent).\<close>

datatype choice = ChoiceNull | ChoiceNoMessage | ChoiceMessage js_value

text \<open>The parsed upstream body: its \<open>choices\<close> is missing (indexing it throws) or is
  a list. \<open>await response.json()\<close> rejects or resolves to such data.\<close>

datatype data = ChoicesMissing | Choices "choice list"

datatype json_result = JsonRejects | JsonResolves data

text \<open>What \<open>await fetch(...)\<close> gives: it rejects (network error), or it resolves to a
  response with \<open>ok\<close>, \<open>status\<close> and a body.\<close>

datatype fetch_outcome = FetchRejects | FetchResolves bool int json_result

text \<open>Whatever is thrown inside the \<open>try\<close> block.\<close>

datatype error =
    TypeError
  | NetworkError
  | JsonError
  | OpenAIError int
  | NoResponse

text \<open>The JSON bodies the handler sends. \<open>RateLimitJson t\<close> is
  \<open>{ error: 'Rate limit exceeded', message: ..., resetTime: t }\<close>, whose message is the
  fixed text followed by \<open>t\<close> as an ISO date.\<close>

datatype resp_json =
    ErrorJson string
  | RateLimitJson int
  | ResponseJson js_value

text \<open>What one run of the handler leaves behind: the status and body sent, the
  headers set on the response (in order), the rate-limit map, and the requests made
  to the upstream API.\<close>

record outcome =
  status :: int
  json :: resp_json
  headers :: "(string \<times> int) list"
  rateLimitMapAfter :: rateLimitMap
  fetchCalls :: "fetch_request list"

text \<open>\<open>s.startsWith(p)\<close> and \<open>s.replace(p, r)\<close> for a string pattern (first
  occurrence only).\<close>

definition startsWith :: "string \<Rightarrow> string \<Rightarrow> bool" where
  "startsWith s p = (take (length p) s = p)"

fun replace :: "string \<Rightarrow> string \<Rightarrow> string \<Rightarrow> string" where
  "replace [] p r = (if p = [] then r else [])"
| "replace (c # cs) p r =
     (if startsWith (c # cs) p then r @ drop (length p) (c # cs)
      else c # replace cs p r)"

text \<open>\<open>a || b\<close> where \<open>a\<close> is a possibly missing string: \<open>a\<close> when it is
  present and non-empty, else \<open>b\<close>.\<close>

definition orElse :: "string option \<Rightarrow> string \<Rightarrow> string" where
  "orElse a b = (case a of Some s \<Rightarrow> (if s \<noteq> [] then s else b) | None \<Rightarrow> b)"

text \<open>The client key: the first element of the forwarded-for list
  (\<open>split(',')[0]\<close>, the text before the first comma), else the real-IP header, else
  the peer address, else \<open>'unknown'\<close>.\<close>

definition clientIP :: "request \<Rightarrow> string" where
  "clientIP req =
     orElse (map_option (takeWhile (\<lambda>c. c \<noteq> CHR '','')) (x_forwarded_for req))
       (orElse (x_real_ip req)
         (orElse (remoteAddress req) ''unknown''))"

text \<open>\<open>data.choices[0]?.message?.content\<close>.\<close>

fun firstContent :: "data \<Rightarrow> error + js_value" where
  "firstContent ChoicesMissing = Inl TypeError"
| "firstContent (Choices []) = Inr JUndefined"
| "firstContent (Choices (ChoiceNull # _)) = Inr JUndefined"
| "firstContent (Choices (ChoiceNoMessage # _)) = Inr JUndefined"
| "firstContent (Choices (ChoiceMessage v # _)) = Inr v"

text \<open>The request the handler sends upstream for a given message.\<close>

definition upstreamRequest :: "env \<Rightarrow> js_value \<Rightarrow> fetch_request" where
  "upstreamRequest ev message =
     \<lparr>url = ''https://api.openai.com/v1/chat/completions'',
      fetch_authorization = ''Bearer '' @
        (case OPENAI_API_KEY ev of None \<Rightarrow> ''undefined'' | Some k \<Rightarrow> k),
      user_content = message\<rparr>"

text \<open>The \<open>try\<close> block: either something is thrown, or a status and body are sent.
  The second component lists the upstream requests made.\<close>

definition tryBlock :: "env \<Rightarrow> (fetch_request \<Rightarrow> fetch_outcome) \<Rightarrow> req_body
    \<Rightarrow> (error + int \<times> resp_json) \<times> fetch_request list" where
  "tryBlock ev fetch b =
     (case b of
        NoBody \<Rightarrow> (Inl TypeError, [])
      | Body message \<Rightarrow>
          if \<not> truthy message then (Inr (400, ErrorJson ''Message is required''), [])
          else
            (let rq = upstreamRequest ev message
             in (case fetch rq of
                   FetchRejects \<Rightarrow> Inl NetworkError
                 | FetchResolves ok st js \<Rightarrow>
                     if \<not> ok then Inl (OpenAIError st)
                     else (case js of
                             JsonRejects \<Rightarrow> Inl JsonError
                           | JsonResolves d \<Rightarrow>
                               (case firstContent d of
                                  Inl e \<Rightarrow> Inl e
                                | Inr aiResponse \<Rightarrow>
                                    if \<not> truthy aiResponse then Inl NoResponse
                                    else Inr (200, ResponseJson aiResponse))),
                 [rq])))"

text \<open>\<open>handler(req, res)\<close>, with the environment, the clock reading and the behaviour
  of \<open>fetch\<close> as arguments. The two console messages (on a wrong key and in the
  \<open>catch\<close>) are not part of the response and are left out.\<close>

definition handler :: "env \<Rightarrow> int \<Rightarrow> (fetch_request \<Rightarrow> fetch_outcome) \<Rightarrow> request
    \<Rightarrow> rateLimitMap \<Rightarrow> outcome" where
  "handler ev now fetch req m =
     (if httpMethod req \<noteq> Some ''POST''
      then \<lparr>status = 405, json = ErrorJson ''Method not allowed'', headers = [],
            rateLimitMapAfter = m, fetchCalls = []\<rparr>
      else
        (let (rateLimitResult, m') = checkRateLimit now (clientIP req) m
         in if \<not> allowed rateLimitResult
            then \<lparr>status = 429, json = RateLimitJson (resultResetTime rateLimitResult),
                  headers = [], rateLimitMapAfter = m', fetchCalls = []\<rparr>
            else
              (let hs = [(''X-RateLimit-Limit'', maxRequests),
                         (''X-RateLimit-Remaining'', remaining rateLimitResult),
                         (''X-RateLimit-Reset'', resultResetTime rateLimitResult)];
                   authHeader = authorization req;
                   expectedKey = BETA_API_KEY ev
               in (case authHeader of
                     None \<Rightarrow>
                       \<lparr>status = 401, json = ErrorJson ''Authorization header required'',
                        headers = hs, rateLimitMapAfter = m', fetchCalls = []\<rparr>
                   | Some h \<Rightarrow>
                       if h = [] \<or> \<not> startsWith h ''Bearer ''
                       then \<lparr>status = 401, json = ErrorJson ''Authorization header required'',
                             headers = hs, rateLimitMapAfter = m', fetchCalls = []\<rparr>
                       else
                         (let providedKey = replace h ''Bearer '' ''''
                          in if Some providedKey \<noteq> expectedKey
                             then \<lparr>status = 401, json = ErrorJson ''Invalid API key'',
                                   headers = hs, rateLimitMapAfter = m', fetchCalls = []\<rparr>
                             else
                               (case tryBlock ev fetch (body req) of
                                  (Inl err, calls) \<Rightarrow>
                                    \<lparr>status = 500,
                                     json = ErrorJson ''Failed to get response from AI'',
                                     headers = hs, rateLimitMapAfter = m', fetchCalls = calls\<rparr>
                                | (Inr (st, js), calls) \<Rightarrow>
                                    \<lparr>status = st, json = js,
                                     headers = hs, rateLimitMapAfter = m',
                                     fetchCalls = calls\<rparr>))))))"

section \<open>Concrete inputs\<close>

text \<open>The environment of the repository's tests, a POST request arriving through a
  proxy, the same request sent with GET, an upstream that always behaves the same way,
  the map after one client has used up its window at time 0, that map written out,
  and 101 calls of one client at time 0, each preceded by a call of another client.\<close>

definition testEnv :: env where
  "testEnv = \<lparr>BETA_API_KEY = Some ''test-api-key-123'',
              OPENAI_API_KEY = Some ''test-openai-key''\<rparr>"

definition postRequest :: "string option \<Rightarrow> req_body \<Rightarrow> request" where
  "postRequest auth b =
     \<lparr>httpMethod = Some ''POST'', x_forwarded_for = Some ''203.0.113.7, 10.0.0.1'',
      x_real_ip = None, authorization = auth, remoteAddress = Some ''127.0.0.1'',
      body = b\<rparr>"

definition getRequest :: "string option \<Rightarrow> req_body \<Rightarrow> request" where
  "getRequest auth b = (postRequest auth b)\<lparr>httpMethod := Some ''GET''\<rparr>"

definition fetchAlways :: "fetch_outcome \<Rightarrow> fetch_request \<Rightarrow> fetch_outcome" where
  "fetchAlways out rq = out"

definition exhaustedMap :: rateLimitMap where
  "exhaustedMap = snd (checkRateLimits (sameKey ''203.0.113.7'' (replicate 100 0)) Map.empty)"

definition alternatingCalls :: "(int \<times> string) list" where
  "alternatingCalls = concat (replicate 101 [(7, ''198.51.100.2''), (0, ''203.0.113.7'')])"

definition fullMap :: rateLimitMap where
  "fullMap = [''203.0.113.7'' \<mapsto> \<lparr>count = 100, resetTime = 3600000\<rparr>]"

section \<open>Facts about one call of the rate limiter\<close>

lemma checkRateLimit_other:
  "k \<noteq> ip \<Longrightarrow> snd (checkRateLimit now ip m) k = m k"
  by (simp add: checkRateLimit_def Let_def)

lemma checkRateLimit_fresh:
  assumes "m ip = None \<or> (\<exists>e. m ip = Some e \<and> resetTime e < now)"
  shows "checkRateLimit now ip m =
     (\<lparr>allowed = True, remaining = maxRequests - 1, resultResetTime = now + windowMs\<rparr>,
      m(ip \<mapsto> \<lparr>count = 1, resetTime = now + windowMs\<rparr>))"
  using assms by (auto simp: checkRateLimit_def Let_def maxRequests_def)

lemma checkRateLimit_live:
  assumes "m ip = Some e" and "now \<le> resetTime e"
  shows "checkRateLimit now ip m =
     (if count e \<ge> maxRequests
      then (\<lparr>allowed = False, remaining = 0, resultResetTime = resetTime e\<rparr>, m)
      else (\<lparr>allowed = True, remaining = maxRequests - (count e + 1),
             resultResetTime = resetTime e\<rparr>,
            m(ip \<mapsto> e\<lparr>count := count e + 1\<rparr>)))"
  using assms by (auto simp: checkRateLimit_def Let_def)

lemma checkRateLimit_denied:
  assumes "\<not> allowed (fst (checkRateLimit now ip m))"
  shows "\<exists>e. m ip = Some e \<and> now \<le> resetTime e \<and> maxRequests \<le> count e \<and>
     checkRateLimit now ip m =
       (\<lparr>allowed = False, remaining = 0, resultResetTime = resetTime e\<rparr>, m)"
  using assms
  by (auto simp: checkRateLimit_def Let_def maxRequests_def split: option.splits if_splits)

section \<open>The bound on the counter\<close>

lemma count_bound_step:
  assumes "\<forall>k e. m k = Some e \<longrightarrow> count e \<le> maxRequests"
  shows "\<forall>k e. snd (checkRateLimit now ip m) k = Some e \<longrightarrow> count e \<le> maxRequests"
proof (cases "m ip = None \<or> (\<exists>e. m ip = Some e \<and> resetTime e < now)")
  case True
  have "checkRateLimit now ip m =
     (\<lparr>allowed = True, remaining = maxRequests - 1, resultResetTime = now + windowMs\<rparr>,
      m(ip \<mapsto> \<lparr>count = 1, resetTime = now + windowMs\<rparr>))"
    using True by (rule checkRateLimit_fresh)
  then show ?thesis
    using assms by (simp add: maxRequests_def)
next
  case False
  then obtain e where e: "m ip = Some e" "now \<le> resetTime e"
    by (cases "m ip") (auto simp: not_less)
  from assms e(1) have "count e \<le> maxRequests"
    by blast
  then show ?thesis
    using assms checkRateLimit_live [of m ip e now, OF e] by simp
qed

lemma snd_checkRateLimits_Cons:
  "snd (checkRateLimits ((now, ip) # cs) m) =
     snd (checkRateLimits cs (snd (checkRateLimit now ip m)))"
  by (simp add: split_beta Let_def)

lemma count_bound_run:
  assumes "\<forall>k e. m k = Some e \<longrightarrow> count e \<le> maxRequests"
  shows "\<forall>k e. snd (checkRateLimits cs m) k = Some e \<longrightarrow> count e \<le> maxRequests"
  using assms
proof (induction cs arbitrary: m)
  case Nil
  then show ?case by simp
next
  case (Cons c cs)
  obtain now ip where c: "c = (now, ip)" by (cases c)
  show ?case
    unfolding c snd_checkRateLimits_Cons
    by (rule Cons.IH) (rule count_bound_step [OF Cons.prems])
qed

text \<open>
  Claim C4. In every state of the map that a sequence of \<open>checkRateLimit\<close> calls
  produces from the empty map, no entry has a count above \<open>maxRequests\<close> (whatever the
  clock says, so in particular while \<open>now \<le> resetTime\<close>); and a call made in any
  state where all counts are within the bound leaves them within the bound.
\<close>

theorem count_never_exceeds_maxRequests:
  "(snd (checkRateLimits cs Map.empty) key = Some e \<longrightarrow> count e \<le> maxRequests) \<and>
   ((\<forall>k e. m k = Some e \<longrightarrow> count e \<le> maxRequests) \<and>
      snd (checkRateLimit now ip m) key = Some e' \<longrightarrow> count e' \<le> maxRequests)"
proof -
  have "\<forall>k e. Map.empty k = Some e \<longrightarrow> count e \<le> maxRequests"
    by simp
  then have "\<forall>k e. snd (checkRateLimits cs Map.empty) k = Some e \<longrightarrow> count e \<le> maxRequests"
    by (rule count_bound_run)
  then show ?thesis
    using count_bound_step [of m now ip] by blast
qed

theorem count_never_exceeds_maxRequests_witness:
  "snd (checkRateLimits (sameKey ''203.0.113.7'' (replicate 101 0)) Map.empty) ''203.0.113.7'' =
     Some \<lparr>count = 100, resetTime = 3600000\<rparr> \<and>
   snd (checkRateLimit 7 ''203.0.113.7'' fullMap) ''203.0.113.7'' =
     Some \<lparr>count = 100, resetTime = 3600000\<rparr> \<and>
   count \<lparr>count = 100, resetTime = 3600000\<rparr> \<le> maxRequests"
proof -
  have a: "snd (checkRateLimits (sameKey ''203.0.113.7'' (replicate 101 0)) Map.empty)
      ''203.0.113.7'' = Some \<lparr>count = 100, resetTime = 3600000\<rparr>"
    by code_simp
  have b: "\<forall>k e. fullMap k = Some e \<longrightarrow> count e \<le> maxRequests"
    by (simp add: fullMap_def maxRequests_def)
  have c: "snd (checkRateLimit 7 ''203.0.113.7'' fullMap) ''203.0.113.7'' =
      Some \<lparr>count = 100, resetTime = 3600000\<rparr>"
    by code_simp
  from a b c show ?thesis
    using count_never_exceeds_maxRequests
      [of "sameKey ''203.0.113.7'' (replicate 101 0)" "''203.0.113.7''"
        "\<lparr>count = 100, resetTime = 3600000\<rparr>" fullMap 7 "''203.0.113.7''"
        "\<lparr>count = 100, resetTime = 3600000\<rparr>"]
    by blast
qed

text \<open>
  Claim C5. A call that denies leaves the map as it was, so the entry of that client
  keeps its count and its reset time; the entry exists, and the call reports
  \<open>remaining = 0\<close>.
\<close>

theorem denial_leaves_entry_unchanged:
  assumes "\<not> allowed (fst (checkRateLimit now ip m))"
  shows "snd (checkRateLimit now ip m) = m \<and>
     snd (checkRateLimit now ip m) ip = m ip \<and> m ip \<noteq> None \<and>
     remaining (fst (checkRateLimit now ip m)) = 0"
  using checkRateLimit_denied [OF assms] by auto

theorem denial_leaves_entry_unchanged_witness:
  "\<not> allowed (fst (checkRateLimit 7 ''203.0.113.7'' fullMap)) \<and>
   snd (checkRateLimit 7 ''203.0.113.7'' fullMap) = fullMap \<and>
   fullMap ''203.0.113.7'' = Some \<lparr>count = 100, resetTime = 3600000\<rparr> \<and>
   remaining (fst (checkRateLimit 7 ''203.0.113.7'' fullMap)) = 0"
proof -
  have d: "\<not> allowed (fst (checkRateLimit 7 ''203.0.113.7'' fullMap))"
    by code_simp
  have e: "fullMap ''203.0.113.7'' = Some \<lparr>count = 100, resetTime = 3600000\<rparr>"
    by (simp add: fullMap_def)
  from d e denial_leaves_entry_unchanged [OF d] show ?thesis
    by simp
qed

section \<open>Facts about the handler\<close>

lemma handler_not_POST:
  "httpMethod req \<noteq> Some ''POST'' \<Longrightarrow>
   handler ev now fetch req m =
     \<lparr>status = 405, json = ErrorJson ''Method not allowed'', headers = [],
      rateLimitMapAfter = m, fetchCalls = []\<rparr>"
  by (simp add: handler_def)

lemma handler_denied:
  assumes "httpMethod req = Some ''POST''"
    and "\<not> allowed (fst (checkRateLimit now (clientIP req) m))"
  shows "handler ev now fetch req m =
     \<lparr>status = 429,
      json = RateLimitJson (resultResetTime (fst (checkRateLimit now (clientIP req) m))),
      headers = [], rateLimitMapAfter = snd (checkRateLimit now (clientIP req) m),
      fetchCalls = []\<rparr>"
  using assms by (simp add: handler_def split_beta)

lemma handler_admitted_headers:
  assumes "httpMethod req = Some ''POST''"
    and "allowed (fst (checkRateLimit now (clientIP req) m))"
  shows "headers (handler ev now fetch req m) =
     [(''X-RateLimit-Limit'', maxRequests),
      (''X-RateLimit-Remaining'', remaining (fst (checkRateLimit now (clientIP req) m))),
      (''X-RateLimit-Reset'', resultResetTime (fst (checkRateLimit now (clientIP req) m)))]"
  using assms
  by (simp add: handler_def split_beta Let_def
      split: option.split sum.split prod.split)

lemma handler_POST_map:
  assumes "httpMethod req = Some ''POST''"
  shows "rateLimitMapAfter (handler ev now fetch req m) =
     snd (checkRateLimit now (clientIP req) m)"
  using assms
  by (simp add: handler_def split_beta Let_def
      split: option.split sum.split prod.split)

lemma handler_other_key:
  assumes "clientIP req \<noteq> key"
  shows "rateLimitMapAfter (handler ev now fetch req m) key = m key"
proof (cases "httpMethod req = Some ''POST''")
  case True
  then show ?thesis
    using assms by (simp add: handler_POST_map checkRateLimit_other)
next
  case False
  then show ?thesis
    by (simp add: handler_not_POST)
qed

lemma tryBlock_status:
  "fst (tryBlock ev fetch b) = Inr (st, js) \<Longrightarrow> st = 200 \<or> st = 400"
  by (auto simp: tryBlock_def Let_def
      split: req_body.splits if_splits fetch_outcome.splits json_result.splits sum.splits)

lemma handler_admitted_status:
  assumes "httpMethod req = Some ''POST''"
    and "allowed (fst (checkRateLimit now (clientIP req) m))"
  shows "status (handler ev now fetch req m) \<in> {200, 400, 401, 500}"
  using assms
  by (auto simp: handler_def split_beta Let_def
      split: option.split sum.split prod.split dest: tryBlock_status)

lemma replace_prefix: "p \<noteq> [] \<Longrightarrow> replace (p @ s) p r = r @ s"
  by (cases p) (simp_all add: startsWith_def)

lemma startsWith_append: "startsWith (p @ s) p"
  by (simp add: startsWith_def)

section \<open>Successive calls for one key\<close>

lemma checkRateLimit_live_resultAt:
  assumes "m key = Some \<lparr>count = c, resetTime = r\<rparr>" and "now \<le> r" and "c \<le> maxRequests"
  shows "checkRateLimit now key m =
     (resultAt c r, m(key \<mapsto> \<lparr>count = min maxRequests (c + 1), resetTime = r\<rparr>))"
proof -
  have "m(key \<mapsto> \<lparr>count = c, resetTime = r\<rparr>) = m"
    using assms(1) by (rule map_upd_triv)
  then show ?thesis
    using assms checkRateLimit_live [of m key "\<lparr>count = c, resetTime = r\<rparr>" now]
    by (auto simp: resultAt_def min_def)
qed

lemma upt_length_Cons: "[0..<length (t # ts)] = 0 # map Suc [0..<length ts]"
  by (simp add: upt_conv_Cons map_Suc_upt del: upt_Suc)

lemma checkRateLimits_same_key:
  assumes "m key = Some \<lparr>count = c, resetTime = r\<rparr>"
    and "\<forall>t\<in>set ts. t \<le> r" and "c \<le> maxRequests"
  shows "checkRateLimits (sameKey key ts) m =
     (map (\<lambda>i. resultAt (c + int i) r) [0..<length ts],
      m(key \<mapsto> \<lparr>count = min maxRequests (c + int (length ts)), resetTime = r\<rparr>))"
  using assms
proof (induction ts arbitrary: c m)
  case Nil
  then show ?case by (simp add: map_upd_triv sameKey_def)
next
  case (Cons t ts)
  let ?c' = "min maxRequests (c + 1)"
  let ?m' = "m(key \<mapsto> \<lparr>count = ?c', resetTime = r\<rparr>)"
  have step: "checkRateLimit t key m = (resultAt c r, ?m')"
    using Cons.prems by (intro checkRateLimit_live_resultAt) simp_all
  have rest: "checkRateLimits (sameKey key ts) ?m' =
     (map (\<lambda>i. resultAt (?c' + int i) r) [0..<length ts],
      ?m'(key \<mapsto> \<lparr>count = min maxRequests (?c' + int (length ts)), resetTime = r\<rparr>))"
    using Cons.prems by (intro Cons.IH) simp_all
  have same: "resultAt (?c' + int i) r = resultAt (c + 1 + int i) r" for i
    by (simp add: resultAt_def min_def)
  have cnt: "min maxRequests (?c' + int (length ts)) =
      min maxRequests (c + int (length (t # ts)))"
    by (simp add: min_def)
  have unroll: "sameKey key (t # ts) = (t, key) # sameKey key ts"
    by (simp add: sameKey_def)
  have "checkRateLimits (sameKey key (t # ts)) m =
     (resultAt c r # map (\<lambda>i. resultAt (c + 1 + int i) r) [0..<length ts],
      m(key \<mapsto> \<lparr>count = min maxRequests (c + int (length (t # ts))), resetTime = r\<rparr>))"
    by (simp only: unroll checkRateLimits.simps step rest same cnt Let_def prod.case
        fun_upd_upd)
  also have "resultAt c r # map (\<lambda>i. resultAt (c + 1 + int i) r) [0..<length ts] =
     map (\<lambda>i. resultAt (c + int i) r) [0..<length (t # ts)]"
    unfolding upt_length_Cons by (simp add: ac_simps)
  finally show ?case .
qed

lemma checkRateLimits_from_absent:
  assumes "m key = None" and "\<forall>t\<in>set ts. t \<le> t0 + windowMs"
  shows "checkRateLimits (sameKey key (t0 # ts)) m =
     (map (\<lambda>i. resultAt (int i) (t0 + windowMs)) [0..<length (t0 # ts)],
      m(key \<mapsto> \<lparr>count = min maxRequests (int (length (t0 # ts))),
                   resetTime = t0 + windowMs\<rparr>))"
proof -
  let ?r = "t0 + windowMs"
  let ?m' = "m(key \<mapsto> \<lparr>count = 1, resetTime = ?r\<rparr>)"
  have first: "checkRateLimit t0 key m = (resultAt 0 ?r, ?m')"
    using assms(1) checkRateLimit_fresh [of m key t0]
    by (simp add: resultAt_def maxRequests_def)
  have rest: "checkRateLimits (sameKey key ts) ?m' =
     (map (\<lambda>i. resultAt (1 + int i) ?r) [0..<length ts],
      ?m'(key \<mapsto> \<lparr>count = min maxRequests (1 + int (length ts)), resetTime = ?r\<rparr>))"
    using assms(2) by (intro checkRateLimits_same_key) (simp_all add: maxRequests_def)
  have unroll: "sameKey key (t0 # ts) = (t0, key) # sameKey key ts"
    by (simp add: sameKey_def)
  have "checkRateLimits (sameKey key (t0 # ts)) m =
     (resultAt 0 ?r # map (\<lambda>i. resultAt (1 + int i) ?r) [0..<length ts],
      m(key \<mapsto> \<lparr>count = min maxRequests (1 + int (length ts)), resetTime = ?r\<rparr>))"
    by (simp only: unroll checkRateLimits.simps first rest Let_def prod.case fun_upd_upd)
  also have "resultAt 0 ?r # map (\<lambda>i. resultAt (1 + int i) ?r) [0..<length ts] =
     map (\<lambda>i. resultAt (int i) ?r) [0..<length (t0 # ts)]"
    unfolding upt_length_Cons by (simp add: ac_simps)
  also have "1 + int (length ts) = int (length (t0 # ts))"
    by simp
  finally show ?thesis .
qed

lemma exhaustedMap_eq: "exhaustedMap = fullMap"
proof -
  have "replicate 100 (0::int) = 0 # replicate 99 0"
    by (simp add: numeral_eq_Suc)
  then have "exhaustedMap =
      snd (checkRateLimits (sameKey ''203.0.113.7'' (0 # replicate 99 0)) Map.empty)"
    by (simp add: exhaustedMap_def)
  also have "\<dots> = fullMap"
    using checkRateLimits_from_absent [of Map.empty "''203.0.113.7''" "replicate 99 0" 0]
    by (simp add: fullMap_def maxRequests_def windowMs_def)
  finally show ?thesis .
qed

section \<open>Calls of other clients in between\<close>

lemma checkRateLimit_depends_on_key:
  assumes "m key = m' key"
  shows "fst (checkRateLimit now key m) = fst (checkRateLimit now key m')"
    and "snd (checkRateLimit now key m) key = snd (checkRateLimit now key m') key"
  using assms by (simp_all add: checkRateLimit_def Let_def)

lemma fst_checkRateLimits_Cons:
  "fst (checkRateLimits ((now, ip) # cs) m) =
     fst (checkRateLimit now ip m) # fst (checkRateLimits cs (snd (checkRateLimit now ip m)))"
  by (simp add: split_beta Let_def)

lemma checkRateLimits_projection:
  assumes "m key = m' key"
  shows "resultsOf key cs (fst (checkRateLimits cs m)) = fst (checkRateLimits (callsOf key cs) m')
     \<and> snd (checkRateLimits cs m) key = snd (checkRateLimits (callsOf key cs) m') key"
  using assms
proof (induction cs arbitrary: m m')
  case Nil
  then show ?case by (simp add: resultsOf_def callsOf_def)
next
  case (Cons c cs)
  obtain now ip where c: "c = (now, ip)" by (cases c)
  show ?case
  proof (cases "ip = key")
    case True
    let ?m1 = "snd (checkRateLimit now key m)" and ?m1' = "snd (checkRateLimit now key m')"
    have next_eq: "?m1 key = ?m1' key"
      using Cons.prems by (rule checkRateLimit_depends_on_key)
    have res_eq: "fst (checkRateLimit now key m) = fst (checkRateLimit now key m')"
      using Cons.prems by (rule checkRateLimit_depends_on_key)
    have calls: "callsOf key ((now, key) # cs) = (now, key) # callsOf key cs"
      by (simp add: callsOf_def)
    have res: "resultsOf key ((now, key) # cs) (r # rs) = r # resultsOf key cs rs" for r rs
      by (simp add: resultsOf_def)
    note IH = Cons.IH [of ?m1 ?m1', OF next_eq]
    show ?thesis
      unfolding c True calls fst_checkRateLimits_Cons snd_checkRateLimits_Cons res
      using IH by (simp add: res_eq)
  next
    case False
    let ?m1 = "snd (checkRateLimit now ip m)"
    have frame: "?m1 key = m' key"
      using False Cons.prems by (simp add: checkRateLimit_other)
    have calls: "callsOf key ((now, ip) # cs) = callsOf key cs"
      using False by (simp add: callsOf_def)
    have res: "resultsOf key ((now, ip) # cs) (r # rs) = resultsOf key cs rs" for r rs
      using False by (simp add: resultsOf_def)
    note IH = Cons.IH [of ?m1 m', OF frame]
    show ?thesis
      unfolding c calls fst_checkRateLimits_Cons snd_checkRateLimits_Cons res
      using IH by simp
  qed
qed

lemma callsOf_sameKey: "callsOf key cs = sameKey key (map fst (callsOf key cs))"
  by (induction cs) (auto simp: callsOf_def sameKey_def)

text \<open>
  Claim C2. Take any sequence of calls, of this client and of others in any order, run
  from a map with no entry for the client. Let the client's own calls be made at \<open>t0\<close>
  and then at the times \<open>ts\<close>, none of them after the reset time \<open>t0 + windowMs\<close> of
  the window its first call opens. The \<open>N\<close>th of the client's calls is admitted with
  \<open>remaining = maxRequests - N\<close> as long as \<open>N \<le> maxRequests\<close>, and is denied from
  \<open>N = maxRequests + 1\<close> on. Once the client has made \<open>maxRequests\<close> calls, a POST
  request of that client arriving before the reset time is answered 429.
\<close>

theorem nth_request_in_window:
  assumes "m key = None"
    and "map fst (callsOf key cs) = t0 # ts"
    and "\<forall>t\<in>set ts. t \<le> t0 + windowMs"
    and "0 < N" and "N \<le> length (t0 # ts)"
  shows "resultsOf key cs (fst (checkRateLimits cs m)) ! (N - 1) =
       (if int N \<le> maxRequests
        then \<lparr>allowed = True, remaining = maxRequests - int N,
              resultResetTime = t0 + windowMs\<rparr>
        else \<lparr>allowed = False, remaining = 0, resultResetTime = t0 + windowMs\<rparr>)
     \<and> (maxRequests \<le> int (length (t0 # ts)) \<and> httpMethod req = Some ''POST'' \<and>
        clientIP req = key \<and> now \<le> t0 + windowMs \<longrightarrow>
          status (handler ev now fetch req (snd (checkRateLimits cs m))) = 429)"
proof -
  have own: "callsOf key cs = sameKey key (t0 # ts)"
    using callsOf_sameKey [of key cs] assms(2) by simp
  note proj = checkRateLimits_projection [of m key m cs, OF refl, unfolded own]
  note run = checkRateLimits_from_absent [of m key ts t0, OF assms(1,3)]
  have n: "N - 1 < length (t0 # ts)" "int (N - 1) = int N - 1"
    using assms(4,5) by simp_all
  have "resultsOf key cs (fst (checkRateLimits cs m)) ! (N - 1) =
      map (\<lambda>i. resultAt (int i) (t0 + windowMs)) [0..<length (t0 # ts)] ! (N - 1)"
    using proj run by simp
  also have "\<dots> = resultAt (int N - 1) (t0 + windowMs)"
    using n by (simp del: upt_Suc length_Cons)
  finally have a: "resultsOf key cs (fst (checkRateLimits cs m)) ! (N - 1) =
       (if int N \<le> maxRequests
        then \<lparr>allowed = True, remaining = maxRequests - int N,
              resultResetTime = t0 + windowMs\<rparr>
        else \<lparr>allowed = False, remaining = 0, resultResetTime = t0 + windowMs\<rparr>)"
    by (simp add: resultAt_def)
  have b: "status (handler ev now fetch req (snd (checkRateLimits cs m))) = 429"
    if h: "maxRequests \<le> int (length (t0 # ts))" "httpMethod req = Some ''POST''"
      "clientIP req = key" "now \<le> t0 + windowMs"
  proof -
    let ?m = "snd (checkRateLimits cs m)"
    have full: "?m key = Some \<lparr>count = maxRequests, resetTime = t0 + windowMs\<rparr>"
      using proj run h(1) by (simp add: min_def)
    have "checkRateLimit now key ?m =
        (resultAt maxRequests (t0 + windowMs),
         ?m(key \<mapsto> \<lparr>count = min maxRequests (maxRequests + 1),
                       resetTime = t0 + windowMs\<rparr>))"
      using full h(4) by (intro checkRateLimit_live_resultAt) simp_all
    then have denied: "\<not> allowed (fst (checkRateLimit now key ?m))"
      by (simp add: resultAt_def)
    then show ?thesis
      using handler_denied [of req now ?m ev fetch] h(2,3) by simp
  qed
  from a b show ?thesis by blast
qed

theorem nth_request_in_window_witness:
  "map fst (callsOf ''203.0.113.7'' alternatingCalls) = 0 # replicate 100 0 \<and>
   resultsOf ''203.0.113.7'' alternatingCalls
       (fst (checkRateLimits alternatingCalls Map.empty)) ! (100 - 1) =
     \<lparr>allowed = True, remaining = 0, resultResetTime = 3600000\<rparr> \<and>
   resultsOf ''203.0.113.7'' alternatingCalls
       (fst (checkRateLimits alternatingCalls Map.empty)) ! (101 - 1) =
     \<lparr>allowed = False, remaining = 0, resultResetTime = 3600000\<rparr> \<and>
   status (handler testEnv 5 (fetchAlways FetchRejects) (postRequest None NoBody)
     (snd (checkRateLimits alternatingCalls Map.empty))) = 429"
proof -
  have c: "map fst (callsOf ''203.0.113.7'' alternatingCalls) = 0 # replicate 100 0"
    by code_simp
  have k: "clientIP (postRequest None NoBody) = ''203.0.113.7''"
    by (simp add: clientIP_def postRequest_def orElse_def)
  have p: "httpMethod (postRequest None NoBody) = Some ''POST''"
    by (simp add: postRequest_def)
  show ?thesis
    using c k p
      nth_request_in_window [of Map.empty "''203.0.113.7''" alternatingCalls 0
        "replicate 100 0" 100 "postRequest None NoBody" 5 testEnv "fetchAlways FetchRejects"]
      nth_request_in_window [of Map.empty "''203.0.113.7''" alternatingCalls 0
        "replicate 100 0" 101 "postRequest None NoBody" 5 testEnv "fetchAlways FetchRejects"]
    by (simp add: maxRequests_def windowMs_def)
qed

text \<open>
  Claim C3. When the stored entry of a client has its reset time in the past, whatever
  its count, the next call for that client is admitted as the first request of a new
  window: it answers \<open>allowed\<close> with \<open>remaining = maxRequests - 1\<close> and the new reset
  time \<open>now + windowMs\<close>, and it stores the fresh entry (count 0) with this request
  counted. Nothing else replaces the entry: a call for another key, and a run of the
  handler for another client, at any time, leave the expired entry in place.
\<close>

theorem expired_entry_starts_new_window:
  assumes "m key = Some e" and "resetTime e < now"
  shows "checkRateLimit now key m =
       (\<lparr>allowed = True, remaining = maxRequests - 1, resultResetTime = now + windowMs\<rparr>,
        m(key \<mapsto> \<lparr>count = 0 + 1, resetTime = now + windowMs\<rparr>))
     \<and> (k \<noteq> key \<longrightarrow> snd (checkRateLimit t k m) key = Some e)
     \<and> (clientIP req \<noteq> key \<longrightarrow> rateLimitMapAfter (handler ev t fetch req m) key = Some e)"
proof -
  have "m key = None \<or> (\<exists>e. m key = Some e \<and> resetTime e < now)"
    using assms by blast
  then have "checkRateLimit now key m =
       (\<lparr>allowed = True, remaining = maxRequests - 1, resultResetTime = now + windowMs\<rparr>,
        m(key \<mapsto> \<lparr>count = 1, resetTime = now + windowMs\<rparr>))"
    by (rule checkRateLimit_fresh)
  moreover have "k \<noteq> key \<longrightarrow> snd (checkRateLimit t k m) key = Some e"
    using assms(1) checkRateLimit_other [of key k t m] by auto
  moreover have "clientIP req \<noteq> key \<longrightarrow>
      rateLimitMapAfter (handler ev t fetch req m) key = Some e"
    using assms(1) handler_other_key [of req key ev t fetch m] by auto
  ultimately show ?thesis by simp
qed

theorem expired_entry_starts_new_window_witness:
  "fullMap ''203.0.113.7'' = Some \<lparr>count = 100, resetTime = 3600000\<rparr> \<and>
   checkRateLimit 3600001 ''203.0.113.7'' fullMap =
     (\<lparr>allowed = True, remaining = 99, resultResetTime = 7200001\<rparr>,
      fullMap(''203.0.113.7'' \<mapsto> \<lparr>count = 1, resetTime = 7200001\<rparr>)) \<and>
   snd (checkRateLimit 9000000 ''198.51.100.2'' fullMap) ''203.0.113.7'' =
     Some \<lparr>count = 100, resetTime = 3600000\<rparr> \<and>
   rateLimitMapAfter (handler testEnv 9000000 (fetchAlways FetchRejects)
       ((postRequest None NoBody)\<lparr>x_forwarded_for := Some ''198.51.100.2''\<rparr>) fullMap)
     ''203.0.113.7'' = Some \<lparr>count = 100, resetTime = 3600000\<rparr>"
proof -
  have e: "fullMap ''203.0.113.7'' = Some \<lparr>count = 100, resetTime = 3600000\<rparr>"
    by (simp add: fullMap_def)
  have k: "clientIP ((postRequest None NoBody)\<lparr>x_forwarded_for := Some ''198.51.100.2''\<rparr>)
      \<noteq> ''203.0.113.7''"
    by (simp add: clientIP_def postRequest_def orElse_def)
  show ?thesis
    using e k
      expired_entry_starts_new_window [of fullMap "''203.0.113.7''"
        "\<lparr>count = 100, resetTime = 3600000\<rparr>" 3600001 "''198.51.100.2''" 9000000
        "(postRequest None NoBody)\<lparr>x_forwarded_for := Some ''198.51.100.2''\<rparr>"
        testEnv "fetchAlways FetchRejects"]
    by (simp add: maxRequests_def windowMs_def)
qed

text \<open>
  Claim C9. A call made at exactly the reset time of the stored entry stays in the old
  window: the reset time is kept, and the count is the old one, raised by one when the
  call is admitted. The call is admitted only if the old count is below
  \<open>maxRequests\<close>.
\<close>

theorem call_at_resetTime_keeps_window:
  assumes "m key = Some e" and "now = resetTime e"
  shows "resultResetTime (fst (checkRateLimit now key m)) = resetTime e
     \<and> allowed (fst (checkRateLimit now key m)) = (count e < maxRequests)
     \<and> snd (checkRateLimit now key m) key =
         Some (if count e < maxRequests then e\<lparr>count := count e + 1\<rparr> else e)"
  using assms checkRateLimit_live [of m key e now] by (simp add: not_le)

theorem call_at_resetTime_keeps_window_witness:
  "fullMap ''203.0.113.7'' = Some \<lparr>count = 100, resetTime = 3600000\<rparr> \<and>
   resultResetTime (fst (checkRateLimit 3600000 ''203.0.113.7'' fullMap)) = 3600000 \<and>
   \<not> allowed (fst (checkRateLimit 3600000 ''203.0.113.7'' fullMap)) \<and>
   snd (checkRateLimit 3600000 ''203.0.113.7'' fullMap) ''203.0.113.7'' =
     Some \<lparr>count = 100, resetTime = 3600000\<rparr> \<and>
   checkRateLimit 10 ''a'' [''a'' \<mapsto> \<lparr>count = 5, resetTime = 10\<rparr>] =
     (\<lparr>allowed = True, remaining = 94, resultResetTime = 10\<rparr>,
      [''a'' \<mapsto> \<lparr>count = 6, resetTime = 10\<rparr>])"
proof -
  have f: "checkRateLimit 10 ''a'' [''a'' \<mapsto> \<lparr>count = 5, resetTime = 10\<rparr>] =
     (\<lparr>allowed = True, remaining = 94, resultResetTime = 10\<rparr>,
      [''a'' \<mapsto> \<lparr>count = 6, resetTime = 10\<rparr>])"
    by (simp add: checkRateLimit_def maxRequests_def)
  have e: "fullMap ''203.0.113.7'' = Some \<lparr>count = 100, resetTime = 3600000\<rparr>"
    by (simp add: fullMap_def)
  show ?thesis
    using e f call_at_resetTime_keeps_window [of fullMap "''203.0.113.7''"
        "\<lparr>count = 100, resetTime = 3600000\<rparr>" 3600000]
    by (simp add: maxRequests_def)
qed

text \<open>
  Claim C10. A request whose method is not POST (or is missing) is answered 405 with
  \<open>{ error: 'Method not allowed' }\<close>; the rate-limit map is returned as it was, no
  header is set and nothing is sent upstream.
\<close>

theorem non_POST_leaves_map_unchanged:
  assumes "httpMethod req \<noteq> Some ''POST''"
  shows "handler ev now fetch req m =
     \<lparr>status = 405, json = ErrorJson ''Method not allowed'', headers = [],
      rateLimitMapAfter = m, fetchCalls = []\<rparr>"
  using assms by (rule handler_not_POST)

theorem non_POST_leaves_map_unchanged_witness:
  "handler testEnv 5 (fetchAlways FetchRejects)
      (getRequest (Some ''Bearer test-api-key-123'') (Body (JStr ''hola''))) fullMap =
     \<lparr>status = 405, json = ErrorJson ''Method not allowed'', headers = [],
      rateLimitMapAfter = fullMap, fetchCalls = []\<rparr>"
proof -
  have g: "httpMethod (getRequest (Some ''Bearer test-api-key-123'') (Body (JStr ''hola'')))
      \<noteq> Some ''POST''"
    by (simp add: getRequest_def postRequest_def)
  show ?thesis
    using g by (rule non_POST_leaves_map_unchanged)
qed

text \<open>
  Claim C7. For a POST request that the rate limiter admits: when the authorization
  header is missing, or does not start with \<open>Bearer \<close>, the answer is 401 with
  \<open>{ error: 'Authorization header required' }\<close> in both cases; when the header is
  \<open>Bearer \<close> followed by a token that is not the configured key, the answer is 401
  with \<open>{ error: 'Invalid API key' }\<close>.
\<close>

theorem authorization_failures:
  assumes "httpMethod req = Some ''POST''"
    and "allowed (fst (checkRateLimit now (clientIP req) m))"
  shows "(authorization req = None \<or>
          (\<exists>h. authorization req = Some h \<and> \<not> startsWith h ''Bearer '') \<longrightarrow>
            status (handler ev now fetch req m) = 401 \<and>
            json (handler ev now fetch req m) = ErrorJson ''Authorization header required'')
     \<and> (authorization req = Some (''Bearer '' @ token) \<and> Some token \<noteq> BETA_API_KEY ev \<longrightarrow>
            status (handler ev now fetch req m) = 401 \<and>
            json (handler ev now fetch req m) = ErrorJson ''Invalid API key'')"
proof -
  have r: "replace (''Bearer '' @ token) ''Bearer '' '''' = token"
    using replace_prefix [of "''Bearer ''" token "''''"] by simp
  have s: "startsWith (''Bearer '' @ token) ''Bearer ''"
    by (rule startsWith_append)
  show ?thesis
    using assms r s
    by (auto simp: handler_def split_beta Let_def simp del: append.simps replace.simps)
qed

theorem authorization_failures_witness:
  "status (handler testEnv 5 (fetchAlways FetchRejects)
      (postRequest None (Body (JStr ''hola''))) Map.empty) = 401 \<and>
   json (handler testEnv 5 (fetchAlways FetchRejects)
      (postRequest None (Body (JStr ''hola''))) Map.empty) =
     ErrorJson ''Authorization header required'' \<and>
   status (handler testEnv 5 (fetchAlways FetchRejects)
      (postRequest (Some ''InvalidFormat test-key'') (Body (JStr ''hola''))) Map.empty) = 401 \<and>
   json (handler testEnv 5 (fetchAlways FetchRejects)
      (postRequest (Some ''InvalidFormat test-key'') (Body (JStr ''hola''))) Map.empty) =
     ErrorJson ''Authorization header required'' \<and>
   status (handler testEnv 5 (fetchAlways FetchRejects)
      (postRequest (Some (''Bearer '' @ ''invalid-key'')) (Body (JStr ''hola''))) Map.empty) = 401 \<and>
   json (handler testEnv 5 (fetchAlways FetchRejects)
      (postRequest (Some (''Bearer '' @ ''invalid-key'')) (Body (JStr ''hola''))) Map.empty) =
     ErrorJson ''Invalid API key''"
proof -
  have p: "httpMethod (postRequest a b) = Some ''POST''" for a b
    by (simp add: postRequest_def)
  have k: "clientIP (postRequest a b) = ''203.0.113.7''" for a b
    by (simp add: clientIP_def postRequest_def orElse_def)
  have a: "allowed (fst (checkRateLimit 5 (clientIP (postRequest a b)) Map.empty))" for a b
    unfolding k by (simp add: checkRateLimit_def maxRequests_def)
  have h1: "authorization (postRequest None (Body (JStr ''hola''))) = None"
    by (simp add: postRequest_def)
  have h2: "authorization (postRequest (Some ''InvalidFormat test-key'') (Body (JStr ''hola'')))
      = Some ''InvalidFormat test-key'' \<and> \<not> startsWith ''InvalidFormat test-key'' ''Bearer ''"
    by (simp add: postRequest_def startsWith_def)
  have h3: "authorization (postRequest (Some (''Bearer '' @ ''invalid-key'')) (Body (JStr ''hola'')))
      = Some (''Bearer '' @ ''invalid-key'') \<and> Some ''invalid-key'' \<noteq> BETA_API_KEY testEnv"
    by (simp add: postRequest_def testEnv_def)
  note inst = authorization_failures [where now = 5 and m = Map.empty and ev = testEnv
      and fetch = "fetchAlways FetchRejects", OF p a]
  show ?thesis
    using h1 h2 h3
      inst [of None "Body (JStr ''hola'')"]
      inst [of "Some ''InvalidFormat test-key''" "Body (JStr ''hola'')"]
      inst [of "Some (''Bearer '' @ ''invalid-key'')" "Body (JStr ''hola'')" "''invalid-key''"]
    by blast
qed

lemma handler_authenticated:
  assumes "httpMethod req = Some ''POST''"
    and "allowed (fst (checkRateLimit now (clientIP req) m))"
    and "authorization req = Some (''Bearer '' @ token)"
    and "BETA_API_KEY ev = Some token"
  shows "status (handler ev now fetch req m) =
       (case fst (tryBlock ev fetch (body req)) of Inl err \<Rightarrow> 500 | Inr (st, js) \<Rightarrow> st)"
    and "json (handler ev now fetch req m) =
       (case fst (tryBlock ev fetch (body req)) of
          Inl err \<Rightarrow> ErrorJson ''Failed to get response from AI''
        | Inr (st, js) \<Rightarrow> js)"
    and "fetchCalls (handler ev now fetch req m) = snd (tryBlock ev fetch (body req))"
proof -
  have r: "replace (''Bearer '' @ token) ''Bearer '' '''' = token"
    using replace_prefix [of "''Bearer ''" token "''''"] by simp
  have s: "startsWith (''Bearer '' @ token) ''Bearer ''"
    by (rule startsWith_append)
  have h: "handler ev now fetch req m =
      (let hs = [(''X-RateLimit-Limit'', maxRequests),
                 (''X-RateLimit-Remaining'', remaining (fst (checkRateLimit now (clientIP req) m))),
                 (''X-RateLimit-Reset'', resultResetTime (fst (checkRateLimit now (clientIP req) m)))];
           m' = snd (checkRateLimit now (clientIP req) m)
       in case tryBlock ev fetch (body req) of
            (Inl err, calls) \<Rightarrow>
              \<lparr>status = 500, json = ErrorJson ''Failed to get response from AI'',
               headers = hs, rateLimitMapAfter = m', fetchCalls = calls\<rparr>
          | (Inr (st, js), calls) \<Rightarrow>
              \<lparr>status = st, json = js, headers = hs, rateLimitMapAfter = m',
               fetchCalls = calls\<rparr>)"
    using assms r s
    by (simp add: handler_def split_beta Let_def del: append.simps replace.simps)
  show "status (handler ev now fetch req m) =
       (case fst (tryBlock ev fetch (body req)) of Inl err \<Rightarrow> 500 | Inr (st, js) \<Rightarrow> st)"
    unfolding h by (simp add: Let_def split: prod.split sum.split)
  show "json (handler ev now fetch req m) =
       (case fst (tryBlock ev fetch (body req)) of
          Inl err \<Rightarrow> ErrorJson ''Failed to get response from AI''
        | Inr (st, js) \<Rightarrow> js)"
    unfolding h by (simp add: Let_def split: prod.split sum.split)
  show "fetchCalls (handler ev now fetch req m) = snd (tryBlock ev fetch (body req))"
    unfolding h by (simp add: Let_def split: prod.split sum.split)
qed

section \<open>The body of the request\<close>

lemma message_required_of_present_body:
  assumes "httpMethod req = Some ''POST''"
    and "allowed (fst (checkRateLimit now (clientIP req) m))"
    and "authorization req = Some (''Bearer '' @ token)"
    and "BETA_API_KEY ev = Some token"
    and "body req = Body JUndefined \<or> body req = Body (JStr '''')"
  shows "status (handler ev now fetch req m) = 400 \<and>
     json (handler ev now fetch req m) = ErrorJson ''Message is required'' \<and>
     fetchCalls (handler ev now fetch req m) = []"
proof -
  have "tryBlock ev fetch (body req) = (Inr (400, ErrorJson ''Message is required''), [])"
    using assms(5) by (auto simp: tryBlock_def)
  then show ?thesis
    by (simp add: handler_authenticated [OF assms(1-4)])
qed

lemma missing_body_throws:
  assumes "httpMethod req = Some ''POST''"
    and "allowed (fst (checkRateLimit now (clientIP req) m))"
    and "authorization req = Some (''Bearer '' @ token)"
    and "BETA_API_KEY ev = Some token"
    and "body req = NoBody"
  shows "status (handler ev now fetch req m) = 500 \<and>
     json (handler ev now fetch req m) = ErrorJson ''Failed to get response from AI'' \<and>
     fetchCalls (handler ev now fetch req m) = []"
proof -
  have "tryBlock ev fetch (body req) = (Inl TypeError, [])"
    using assms(5) by (simp add: tryBlock_def)
  then show ?thesis
    by (simp add: handler_authenticated [OF assms(1-4)])
qed

text \<open>
  Claim C8. For a POST request that the rate limiter admits and that carries the
  configured key, a body without a \<open>message\<close> field and a body with the empty string
  there are answered 400 with \<open>{ error: 'Message is required' }\<close>, and nothing is
  sent upstream. A request with no body at all has no message either, but there the
  destructuring of \<open>req.body\<close> throws inside the \<open>try\<close> block and the answer is 500 with
  \<open>{ error: 'Failed to get response from AI' }\<close>, although no upstream call was made.
\<close>

theorem missing_body_answered_500:
  "status (handler testEnv 5 (fetchAlways FetchRejects)
      (postRequest (Some ''Bearer test-api-key-123'') NoBody) Map.empty) = 500 \<and>
   json (handler testEnv 5 (fetchAlways FetchRejects)
      (postRequest (Some ''Bearer test-api-key-123'') NoBody) Map.empty) =
     ErrorJson ''Failed to get response from AI'' \<and>
   fetchCalls (handler testEnv 5 (fetchAlways FetchRejects)
      (postRequest (Some ''Bearer test-api-key-123'') NoBody) Map.empty) = [] \<and>
   status (handler testEnv 5 (fetchAlways FetchRejects)
      (postRequest (Some ''Bearer test-api-key-123'') (Body JUndefined)) Map.empty) = 400 \<and>
   json (handler testEnv 5 (fetchAlways FetchRejects)
      (postRequest (Some ''Bearer test-api-key-123'') (Body JUndefined)) Map.empty) =
     ErrorJson ''Message is required'' \<and>
   status (handler testEnv 5 (fetchAlways FetchRejects)
      (postRequest (Some ''Bearer test-api-key-123'') (Body (JStr ''''))) Map.empty) = 400 \<and>
   json (handler testEnv 5 (fetchAlways FetchRejects)
      (postRequest (Some ''Bearer test-api-key-123'') (Body (JStr ''''))) Map.empty) =
     ErrorJson ''Message is required''"
  by code_simp

text \<open>
  Claim C6. For a POST request that is admitted, carries the configured key and has a
  message, the upstream call is made once. Unless it resolves with an ok status and a
  body whose first choice has a truthy message content, the answer is 500 with
  \<open>{ error: 'Failed to get response from AI' }\<close>: the same for a rejected call
  (network error), a status that is not ok, a body that cannot be read, data without
  \<open>choices\<close>, an empty list of choices, and a content that is absent, null or
  otherwise falsy. Only the remaining case is answered 200, with that content.
\<close>

theorem upstream_failures_look_alike:
  assumes "httpMethod req = Some ''POST''"
    and "allowed (fst (checkRateLimit now (clientIP req) m))"
    and "authorization req = Some (''Bearer '' @ token)"
    and "BETA_API_KEY ev = Some token"
    and "body req = Body message" and "truthy message"
  shows "(\<not> (\<exists>st d v. fetch (upstreamRequest ev message) = FetchResolves True st (JsonResolves d)
            \<and> firstContent d = Inr v \<and> truthy v) \<longrightarrow>
          status (handler ev now fetch req m) = 500 \<and>
          json (handler ev now fetch req m) = ErrorJson ''Failed to get response from AI'')
     \<and> (\<forall>st d v. fetch (upstreamRequest ev message) = FetchResolves True st (JsonResolves d)
            \<and> firstContent d = Inr v \<and> truthy v \<longrightarrow>
          status (handler ev now fetch req m) = 200 \<and>
          json (handler ev now fetch req m) = ResponseJson v)
     \<and> fetchCalls (handler ev now fetch req m) = [upstreamRequest ev message]"
proof -
  let ?rq = "upstreamRequest ev message"
  let ?ok = "\<exists>st d v. fetch ?rq = FetchResolves True st (JsonResolves d)
      \<and> firstContent d = Inr v \<and> truthy v"
  have calls: "snd (tryBlock ev fetch (body req)) = [?rq]"
    using assms(5,6) by (simp add: tryBlock_def Let_def)
  have failure: "\<exists>err. fst (tryBlock ev fetch (body req)) = Inl err" if "\<not> ?ok"
    using that assms(5,6)
    by (auto simp: tryBlock_def Let_def
        split: fetch_outcome.splits json_result.splits sum.splits)
  have success: "fst (tryBlock ev fetch (body req)) = Inr (200, ResponseJson v)"
    if "fetch ?rq = FetchResolves True st (JsonResolves d)" "firstContent d = Inr v" "truthy v"
    for st d v
    using that assms(5,6) by (simp add: tryBlock_def Let_def)
  show ?thesis
    using calls failure success
    by (auto simp: handler_authenticated [OF assms(1-4)])
qed

theorem upstream_failures_look_alike_witness:
  "status (handler testEnv 5 (fetchAlways FetchRejects)
      (postRequest (Some (''Bearer '' @ ''test-api-key-123'')) (Body (JStr ''gato''))) Map.empty) = 500 \<and>
   json (handler testEnv 5 (fetchAlways FetchRejects)
      (postRequest (Some (''Bearer '' @ ''test-api-key-123'')) (Body (JStr ''gato''))) Map.empty) =
     ErrorJson ''Failed to get response from AI'' \<and>
   status (handler testEnv 5 (fetchAlways (FetchResolves False 401 JsonRejects))
      (postRequest (Some (''Bearer '' @ ''test-api-key-123'')) (Body (JStr ''gato''))) Map.empty) = 500 \<and>
   json (handler testEnv 5 (fetchAlways (FetchResolves False 401 JsonRejects))
      (postRequest (Some (''Bearer '' @ ''test-api-key-123'')) (Body (JStr ''gato''))) Map.empty) =
     ErrorJson ''Failed to get response from AI'' \<and>
   status (handler testEnv 5 (fetchAlways (FetchResolves True 200 JsonRejects))
      (postRequest (Some (''Bearer '' @ ''test-api-key-123'')) (Body (JStr ''gato''))) Map.empty) = 500 \<and>
   json (handler testEnv 5 (fetchAlways (FetchResolves True 200 JsonRejects))
      (postRequest (Some (''Bearer '' @ ''test-api-key-123'')) (Body (JStr ''gato''))) Map.empty) =
     ErrorJson ''Failed to get response from AI'' \<and>
   status (handler testEnv 5 (fetchAlways (FetchResolves True 200 (JsonResolves ChoicesMissing)))
      (postRequest (Some (''Bearer '' @ ''test-api-key-123'')) (Body (JStr ''gato''))) Map.empty) = 500 \<and>
   json (handler testEnv 5 (fetchAlways (FetchResolves True 200 (JsonResolves ChoicesMissing)))
      (postRequest (Some (''Bearer '' @ ''test-api-key-123'')) (Body (JStr ''gato''))) Map.empty) =
     ErrorJson ''Failed to get response from AI'' \<and>
   status (handler testEnv 5
      (fetchAlways (FetchResolves True 200 (JsonResolves (Choices []))))
      (postRequest (Some (''Bearer '' @ ''test-api-key-123'')) (Body (JStr ''gato''))) Map.empty) = 500 \<and>
   json (handler testEnv 5
      (fetchAlways (FetchResolves True 200 (JsonResolves (Choices []))))
      (postRequest (Some (''Bearer '' @ ''test-api-key-123'')) (Body (JStr ''gato''))) Map.empty) =
     ErrorJson ''Failed to get response from AI'' \<and>
   status (handler testEnv 5
      (fetchAlways (FetchResolves True 200 (JsonResolves (Choices [ChoiceMessage JNull]))))
      (postRequest (Some (''Bearer '' @ ''test-api-key-123'')) (Body (JStr ''gato''))) Map.empty) = 500 \<and>
   json (handler testEnv 5
      (fetchAlways (FetchResolves True 200 (JsonResolves (Choices [ChoiceMessage JNull]))))
      (postRequest (Some (''Bearer '' @ ''test-api-key-123'')) (Body (JStr ''gato''))) Map.empty) =
     ErrorJson ''Failed to get response from AI'' \<and>
   status (handler testEnv 5
      (fetchAlways (FetchResolves True 200 (JsonResolves (Choices [ChoiceMessage (JStr '''')]))))
      (postRequest (Some (''Bearer '' @ ''test-api-key-123'')) (Body (JStr ''gato''))) Map.empty) = 500 \<and>
   json (handler testEnv 5
      (fetchAlways (FetchResolves True 200 (JsonResolves (Choices [ChoiceMessage (JStr '''')]))))
      (postRequest (Some (''Bearer '' @ ''test-api-key-123'')) (Body (JStr ''gato''))) Map.empty) =
     ErrorJson ''Failed to get response from AI'' \<and>
   status (handler testEnv 5
      (fetchAlways (FetchResolves True 200 (JsonResolves (Choices [ChoiceMessage (JStr ''cat'')]))))
      (postRequest (Some (''Bearer '' @ ''test-api-key-123'')) (Body (JStr ''gato''))) Map.empty) = 200 \<and>
   json (handler testEnv 5
      (fetchAlways (FetchResolves True 200 (JsonResolves (Choices [ChoiceMessage (JStr ''cat'')]))))
      (postRequest (Some (''Bearer '' @ ''test-api-key-123'')) (Body (JStr ''gato''))) Map.empty) =
     ResponseJson (JStr ''cat'')"
proof -
  have p: "httpMethod (postRequest a b) = Some ''POST''" for a b
    by (simp add: postRequest_def)
  have k: "clientIP (postRequest a b) = ''203.0.113.7''" for a b
    by (simp add: clientIP_def postRequest_def orElse_def)
  have a: "allowed (fst (checkRateLimit 5 (clientIP (postRequest a b)) Map.empty))" for a b
    unfolding k by (simp add: checkRateLimit_def maxRequests_def)
  have h: "authorization (postRequest (Some (''Bearer '' @ ''test-api-key-123'')) b) =
      Some (''Bearer '' @ ''test-api-key-123'')" for b
    by (simp add: postRequest_def)
  have e: "BETA_API_KEY testEnv = Some ''test-api-key-123''"
    by (simp add: testEnv_def)
  have b: "body (postRequest a (Body (JStr ''gato''))) = Body (JStr ''gato'')" for a
    by (simp add: postRequest_def)
  have t: "truthy (JStr ''gato'')"
    by simp
  note inst = upstream_failures_look_alike [OF p a h e b t]
  show ?thesis
    using inst [of "fetchAlways FetchRejects"]
      inst [of "fetchAlways (FetchResolves False 401 JsonRejects)"]
      inst [of "fetchAlways (FetchResolves True 200 JsonRejects)"]
      inst [of "fetchAlways (FetchResolves True 200 (JsonResolves ChoicesMissing))"]
      inst [of "fetchAlways (FetchResolves True 200 (JsonResolves (Choices [])))"]
      inst [of "fetchAlways (FetchResolves True 200 (JsonResolves (Choices [ChoiceMessage JNull])))"]
      inst [of "fetchAlways (FetchResolves True 200 (JsonResolves (Choices [ChoiceMessage (JStr '''')])))"]
      inst [of "fetchAlways (FetchResolves True 200 (JsonResolves (Choices [ChoiceMessage (JStr ''cat'')])))"]
    by (simp add: fetchAlways_def)
qed

text \<open>
  Claim C1, as the code has it. For a POST request the three headers
  \<open>X-RateLimit-Limit\<close>, \<open>X-RateLimit-Remaining\<close> and \<open>X-RateLimit-Reset\<close> are set, to
  \<open>maxRequests\<close> and to what \<open>checkRateLimit\<close> returned, exactly when the rate
  limiter admits the request, whatever the answer then is (200, 400, 401 or 500). A
  request that is denied is answered 429 with no header set.
\<close>

theorem rate_limit_headers_iff_admitted:
  assumes "httpMethod req = Some ''POST''"
  shows "headers (handler ev now fetch req m) =
       (if allowed (fst (checkRateLimit now (clientIP req) m))
        then [(''X-RateLimit-Limit'', maxRequests),
              (''X-RateLimit-Remaining'',
                 remaining (fst (checkRateLimit now (clientIP req) m))),
              (''X-RateLimit-Reset'',
                 resultResetTime (fst (checkRateLimit now (clientIP req) m)))]
        else [])
     \<and> (if allowed (fst (checkRateLimit now (clientIP req) m))
        then status (handler ev now fetch req m) \<in> {200, 400, 401, 500}
        else status (handler ev now fetch req m) = 429)"
proof (cases "allowed (fst (checkRateLimit now (clientIP req) m))")
  case True
  then show ?thesis
    using handler_admitted_headers [OF assms True, of ev fetch]
      handler_admitted_status [OF assms True, of ev fetch]
    by simp
next
  case False
  then show ?thesis
    by (simp add: handler_denied [OF assms False])
qed

theorem rate_limit_headers_iff_admitted_witness:
  "headers (handler testEnv 5 (fetchAlways FetchRejects) (postRequest None NoBody) Map.empty) =
     [(''X-RateLimit-Limit'', 100), (''X-RateLimit-Remaining'', 99),
      (''X-RateLimit-Reset'', 3600005)] \<and>
   status (handler testEnv 5 (fetchAlways FetchRejects) (postRequest None NoBody) Map.empty) = 401 \<and>
   headers (handler testEnv 5 (fetchAlways FetchRejects) (postRequest None NoBody) fullMap) = [] \<and>
   status (handler testEnv 5 (fetchAlways FetchRejects) (postRequest None NoBody) fullMap) = 429"
proof -
  have p: "httpMethod (postRequest None NoBody) = Some ''POST''"
    by (simp add: postRequest_def)
  have k: "clientIP (postRequest None NoBody) = ''203.0.113.7''"
    by (simp add: clientIP_def postRequest_def orElse_def)
  have r1: "fst (checkRateLimit 5 ''203.0.113.7'' Map.empty) =
      \<lparr>allowed = True, remaining = 99, resultResetTime = 3600005\<rparr>"
    by (simp add: checkRateLimit_def maxRequests_def windowMs_def)
  have r2: "fst (checkRateLimit 5 ''203.0.113.7'' fullMap) =
      \<lparr>allowed = False, remaining = 0, resultResetTime = 3600000\<rparr>"
    by (simp add: checkRateLimit_def maxRequests_def fullMap_def)
  have s: "status (handler testEnv 5 (fetchAlways FetchRejects) (postRequest None NoBody)
      Map.empty) = 401"
    by code_simp
  show ?thesis
    using s rate_limit_headers_iff_admitted [OF p, of testEnv 5 "fetchAlways FetchRejects" Map.empty]
      rate_limit_headers_iff_admitted [OF p, of testEnv 5 "fetchAlways FetchRejects" fullMap]
    unfolding k r1 r2
    by (simp add: maxRequests_def)
qed

text \<open>The claim as the specification words it fails: the 101st POST request of a client
  within its window is answered 429, and no rate-limit header is set on that
  response.\<close>

theorem rate_limit_headers_missing_on_429:
  "httpMethod (postRequest None NoBody) = Some ''POST'' \<and>
   status (handler testEnv 5 (fetchAlways FetchRejects) (postRequest None NoBody)
     exhaustedMap) = 429 \<and>
   headers (handler testEnv 5 (fetchAlways FetchRejects) (postRequest None NoBody)
     exhaustedMap) = []"
  by code_simp

end
